theory Spec2Isabelle
  imports Main "HOL-Library.AList" "HOL-Library.Char_ord" "HOL-Library.List_Lexorder"
begin

section \<open>Strings\<close>

text \<open>
  Qualified names, paths and printed lines are Python \<open>str\<close> values, modelled as
  \<open>string\<close> (a list of bytes, UTF-8 for the few non-ASCII characters the printer
  emits). The methods of \<open>str\<close> that \<open>who_calls.py\<close> uses are written out here.
\<close>

text \<open>\<open>s.split(".")\<close>: the pieces of \<open>s\<close> between the separators; never empty.\<close>

fun split :: "char \<Rightarrow> string \<Rightarrow> string list" where
  "split sep [] = [[]]"
| "split sep (x # xs) =
     (if x = sep then [] # split sep xs
      else (x # hd (split sep xs)) # tl (split sep xs))"

text \<open>\<open>sep.join(xs)\<close>.\<close>

fun join :: "string \<Rightarrow> string list \<Rightarrow> string" where
  "join sep [] = []"
| "join sep [x] = x"
| "join sep (x # y # ys) = x @ sep @ join sep (y # ys)"

text \<open>\<open>s.startswith(p)\<close> and \<open>s.endswith(p)\<close>.\<close>

definition startswith :: "string \<Rightarrow> string \<Rightarrow> bool" where
  "startswith s p = (take (length p) s = p)"

definition endswith :: "string \<Rightarrow> string \<Rightarrow> bool" where
  "endswith s p = (length p \<le> length s \<and> drop (length s - length p) s = p)"

text \<open>\<open>str(i)\<close> for an integer: decimal digits, with a minus sign below zero.\<close>

definition digit_char :: "nat \<Rightarrow> char" where
  "digit_char n = ''0123456789'' ! (n mod 10)"

function digits :: "nat \<Rightarrow> string" where
  "digits n = (if n < 10 then [digit_char n] else digits (n div 10) @ [digit_char n])"
  by pat_completeness auto
termination
  by (relation "measure (\<lambda>n. n)") auto

definition str_int :: "int \<Rightarrow> string" where
  "str_int i = (if i < 0 then ''-'' @ digits (nat (- i)) else digits (nat i))"


section \<open>The directed graph\<close>

text \<open>
  \<open>networkx.DiGraph\<close> as the program uses it: a collection of nodes kept in insertion
  order and a collection of directed edges, neither with duplicates. \<open>add_edge\<close> adds
  an endpoint that is not a node yet.
\<close>

record digraph =
  nodes :: "string list"
  edges :: "(string \<times> string) list"

definition DiGraph :: digraph where
  "DiGraph = \<lparr>nodes = [], edges = []\<rparr>"

definition add_node :: "string \<Rightarrow> digraph \<Rightarrow> digraph" where
  "add_node q g = (if q \<in> set (nodes g) then g else g\<lparr>nodes := nodes g @ [q]\<rparr>)"

definition add_edge :: "string \<Rightarrow> string \<Rightarrow> digraph \<Rightarrow> digraph" where
  "add_edge u v g =
     (let g' = add_node v (add_node u g)
      in if (u, v) \<in> set (edges g') then g' else g'\<lparr>edges := edges g' @ [(u, v)]\<rparr>)"

definition successors :: "digraph \<Rightarrow> string \<Rightarrow> string list" where
  "successors g n = map snd (filter (\<lambda>e. fst e = n) (edges g))"

definition predecessors :: "digraph \<Rightarrow> string \<Rightarrow> string list" where
  "predecessors g n = map fst (filter (\<lambda>e. snd e = n) (edges g))"

text \<open>\<open>nx.has_path(g, u, v)\<close>, for nodes \<open>u\<close> and \<open>v\<close> of \<open>g\<close>: a path of zero or more edges.\<close>

definition has_path :: "digraph \<Rightarrow> string \<Rightarrow> string \<Rightarrow> bool" where
  "has_path g u v = (u = v \<or> (u, v) \<in> (set (edges g))\<^sup>+)"

text \<open>\<open>g.subgraph(ns).copy()\<close>: the nodes of \<open>g\<close> that are in \<open>ns\<close> and the edges between them.\<close>

definition subgraph :: "digraph \<Rightarrow> string list \<Rightarrow> digraph" where
  "subgraph g ns =
     \<lparr>nodes = filter (\<lambda>n. n \<in> set ns) (nodes g),
      edges = filter (\<lambda>e. fst e \<in> set ns \<and> snd e \<in> set ns) (edges g)\<rparr>"


section \<open>The call graph and its metadata\<close>

text \<open>
  The dataclass \<open>CallGraph\<close>: the graph, and for each discovered function the file
  that defines it and the line of its definition. A path is the string that
  \<open>as_posix()\<close> gives.
\<close>

record CallGraph =
  graph :: digraph
  src :: "string \<rightharpoonup> string"
  lines :: "string \<rightharpoonup> int"

text \<open>
  \<open>CallGraph.filtered\<close>. The compiled pattern is taken as the predicate
  \<open>pattern.search(n) is not None\<close> on strings. The method reads \<open>self\<close> and builds
  new objects; it assigns to nothing that \<open>self\<close> holds.
\<close>

definition filtered :: "CallGraph \<Rightarrow> (string \<Rightarrow> bool) \<Rightarrow> CallGraph" where
  "filtered self pattern =
     (let ns = filter pattern (nodes (graph self));
          sub = subgraph (graph self) ns;
          src' = (\<lambda>k. if k \<in> set ns then src self k else None);
          lines' = (\<lambda>k. if k \<in> set ns then lines self k else None)
      in \<lparr>graph = sub, src = src', lines = lines'\<rparr>)"

text \<open>\<open>CallGraph.label\<close>: \<open>"func @ file:line"\<close> for a node.\<close>

definition label :: "CallGraph \<Rightarrow> string \<Rightarrow> string" where
  "label self node =
     (let func = last (split CHR ''.'' node);
          file = (case src self node of None \<Rightarrow> ''?'' | Some p \<Rightarrow> p)
      in func @ '' @ '' @ file @ '':''
           @ str_int (case lines self node of None \<Rightarrow> 1 | Some l \<Rightarrow> l))"


section \<open>Syntax trees\<close>

text \<open>
  The part of Python's \<open>ast\<close> node classes that the program tells apart. Every node
  carries its child nodes in the order \<open>ast.iter_child_nodes\<close> yields them. A
  function definition carries its name and \<open>lineno\<close>; a call carries the called
  expression \<open>func\<close> first and then its arguments; an attribute access carries the
  expression \<open>value\<close> and the attribute's name; \<open>Node\<close> is any other node class.
  The expression-context nodes (\<open>Load\<close>, \<open>Store\<close>, \<open>Del\<close>) are left out: they have
  no children and are of no class that the program looks for.
\<close>

datatype ast =
    ClassDef string "ast list"
  | FunctionDef string int "ast list"
  | AsyncFunctionDef string int "ast list"
  | Call ast "ast list"
  | Name string
  | Attribute ast string
  | Node "ast list"

fun iter_child_nodes :: "ast \<Rightarrow> ast list" where
  "iter_child_nodes (ClassDef name cs) = cs"
| "iter_child_nodes (FunctionDef name lineno cs) = cs"
| "iter_child_nodes (AsyncFunctionDef name lineno cs) = cs"
| "iter_child_nodes (Call func args) = func # args"
| "iter_child_nodes (Name ident) = []"
| "iter_child_nodes (Attribute v attr) = [v]"
| "iter_child_nodes (Node cs) = cs"


text \<open>
  \<open>ast.walk(node)\<close>: the node and all its descendants, breadth first. The argument
  is the queue of nodes still to be yielded.
\<close>

function ast_walk :: "ast list \<Rightarrow> ast list" where
  "ast_walk [] = []"
| "ast_walk (n # todo) = n # ast_walk (todo @ iter_child_nodes n)"
  by pat_completeness auto
termination
proof (relation "measure (size_list size)")
  show "wf (measure (size_list (size :: ast \<Rightarrow> nat)))"
    by simp
next
  fix n :: ast and todo :: "ast list"
  have "size_list size (iter_child_nodes n) \<le> size n"
    by (cases n) auto
  then show "(todo @ iter_child_nodes n, n # todo) \<in> measure (size_list size)"
    by simp
qed


section \<open>Collecting the definitions\<close>

text \<open>
  One file that \<open>root.rglob("*.py")\<close> yields: \<open>path\<close> is the path as yielded, \<open>rel\<close>
  the path relative to the root, \<open>module\<close> the dotted name that line 67 makes of
  the relative path's parts without the suffix, and \<open>tree\<close> what \<open>ast.parse\<close> makes
  of the file's text, \<open>None\<close> when it raises \<open>SyntaxError\<close>.
\<close>

record source_file =
  path :: string
  rel :: string
  module :: string
  tree :: "ast option"

text \<open>
  The four objects that \<open>build_call_graph\<close> fills. \<open>defs\<close> is a dictionary that is
  iterated later, so it keeps its keys in insertion order: \<open>AList.update\<close> appends a
  new key and replaces the value of an old one in place.
\<close>

record build_state =
  defs :: "(string \<times> ast) list"
  src_map :: "string \<rightharpoonup> string"
  line_map :: "string \<rightharpoonup> int"
  bgraph :: digraph

definition qualname :: "string \<Rightarrow> string list \<Rightarrow> string \<Rightarrow> string" where
  "qualname modname cls name = modname @ ''.'' @ join ''.'' (cls @ [name])"

text \<open>
  The first four statements of \<open>Collector._add\<close>, for a definition \<open>node\<close> named
  \<open>name\<close> at line \<open>lineno\<close>, under the class stack \<open>cls\<close>.
\<close>

definition register :: "source_file \<Rightarrow> string list \<Rightarrow> string \<Rightarrow> int \<Rightarrow> ast \<Rightarrow> build_state \<Rightarrow> build_state" where
  "register f cls name lineno node st =
     (let q = qualname (module f) cls name
      in st\<lparr>defs := AList.update q node (defs st),
            src_map := (src_map st)(q \<mapsto> path f),
            line_map := (line_map st)(q \<mapsto> lineno),
            bgraph := add_node q (bgraph st)\<rparr>)"

text \<open>
  The visitor \<open>Collector\<close>. \<open>visit\<close> dispatches on the node's class;
  \<open>generic_visit\<close> visits the children in order. \<open>visit_ClassDef\<close> pushes the class
  name for the visit of the children and pops it afterwards, so the stack is the
  argument \<open>cls\<close>. \<open>_add\<close>, which is \<open>visit_FunctionDef\<close> and
  \<open>visit_AsyncFunctionDef\<close>, registers the definition and visits the children under
  the stack as it is.
\<close>

fun visit :: "source_file \<Rightarrow> string list \<Rightarrow> ast \<Rightarrow> build_state \<Rightarrow> build_state"
  and generic_visit :: "source_file \<Rightarrow> string list \<Rightarrow> ast list \<Rightarrow> build_state \<Rightarrow> build_state"
where
  "visit f cls (ClassDef name cs) st = generic_visit f (cls @ [name]) cs st"
| "visit f cls (FunctionDef name lineno cs) st =
     generic_visit f cls cs (register f cls name lineno (FunctionDef name lineno cs) st)"
| "visit f cls (AsyncFunctionDef name lineno cs) st =
     generic_visit f cls cs (register f cls name lineno (AsyncFunctionDef name lineno cs) st)"
| "visit f cls (Call func args) st = generic_visit f cls (func # args) st"
| "visit f cls (Name ident) st = st"
| "visit f cls (Attribute v attr) st = generic_visit f cls [v] st"
| "visit f cls (Node cs) st = generic_visit f cls cs st"
| "generic_visit f cls [] st = st"
| "generic_visit f cls (c # cs) st = generic_visit f cls cs (visit f cls c st)"

text \<open>The body of the loop over the files, lines 60 to 89.\<close>

definition collect_file :: "(string \<Rightarrow> bool) \<Rightarrow> source_file \<Rightarrow> build_state \<Rightarrow> build_state" where
  "collect_file rx_exclude f st =
     (if rx_exclude (rel f) then st
      else case tree f of
             None \<Rightarrow> st
           | Some t \<Rightarrow> visit f [] t st)"

text \<open>Lines 54 to 57: the four objects, empty.\<close>

definition empty_state :: build_state where
  "empty_state = \<lparr>defs = [], src_map = Map.empty, line_map = Map.empty, bgraph = DiGraph\<rparr>"

text \<open>The loop over the files: the first pass, which ends before any call is resolved.\<close>

definition collect :: "source_file list \<Rightarrow> (string \<Rightarrow> bool) \<Rightarrow> build_state" where
  "collect files rx_exclude = fold (collect_file rx_exclude) files empty_state"


section \<open>Resolving the calls\<close>

text \<open>Line 93: the caller's name without its last segment.\<close>

definition caller_prefix :: "string \<Rightarrow> string" where
  "caller_prefix caller = join ''.'' (butlast (split CHR ''.'' caller))"

text \<open>
  Lines 97 to 112: the candidates for a call whose called expression is \<open>func\<close>,
  among the keys \<open>ks\<close> of \<open>defs\<close>; \<open>pre\<close> is the caller's prefix.
\<close>

definition callee_candidates :: "string list \<Rightarrow> string \<Rightarrow> ast \<Rightarrow> string list" where
  "callee_candidates ks pre func =
     (case func of
        Name ident \<Rightarrow> filter (\<lambda>d. endswith d (''.'' @ ident)) ks
      | Attribute v attr \<Rightarrow>
          (let cands =
                 (case v of
                    Name ident \<Rightarrow>
                      if ident \<in> {''self'', ''cls''} then
                        (let same_cls = pre @ ''.'' @ attr
                         in if same_cls \<in> set ks then [same_cls] else [])
                      else []
                  | _ \<Rightarrow> [])
           in if cands = [] then filter (\<lambda>d. endswith d (''.'' @ attr)) ks else cands)
      | _ \<Rightarrow> [])"

text \<open>Lines 114 to 117: the edges for the candidates of one call.\<close>

definition link :: "string \<Rightarrow> string \<Rightarrow> string list \<Rightarrow> digraph \<Rightarrow> digraph" where
  "link caller pre cands g =
     (if cands \<noteq> [] then
        (let same_pkg = filter (\<lambda>c. startswith c pre) cands
         in fold (add_edge caller) (if same_pkg \<noteq> [] then same_pkg else cands) g)
      else g)"

text \<open>The body of the loop over \<open>ast.walk(fnode)\<close>, lines 95 to 117.\<close>

definition resolve_node :: "string list \<Rightarrow> string \<Rightarrow> string \<Rightarrow> ast \<Rightarrow> digraph \<Rightarrow> digraph" where
  "resolve_node ks caller pre n g =
     (case n of
        Call func args \<Rightarrow> link caller pre (callee_candidates ks pre func) g
      | _ \<Rightarrow> g)"

text \<open>The body of the loop over \<open>defs.items()\<close>, lines 93 to 117.\<close>

definition resolve_def :: "string list \<Rightarrow> string \<times> ast \<Rightarrow> digraph \<Rightarrow> digraph" where
  "resolve_def ks d g =
     (let caller = fst d
      in fold (resolve_node ks caller (caller_prefix caller)) (ast_walk [snd d]) g)"

text \<open>
  \<open>build_call_graph\<close>, on the files that the traversal of the root yields, in the
  order it yields them: the first pass collects, the second adds the edges.
\<close>

definition build_call_graph :: "source_file list \<Rightarrow> (string \<Rightarrow> bool) \<Rightarrow> CallGraph" where
  "build_call_graph files rx_exclude =
     (let st = collect files rx_exclude;
          g = fold (resolve_def (map fst (defs st))) (defs st) (bgraph st)
      in \<lparr>graph = g, src = src_map st, lines = line_map st\<rparr>)"


section \<open>Printing the caller tree\<close>

text \<open>
  How a call of \<open>print_caller_tree\<close> ends: it returns, or \<open>sys.exit\<close> raises
  \<open>SystemExit\<close> with its argument, or the recursion of \<open>walk\<close> exceeds the
  interpreter's recursion limit and \<open>RecursionError\<close> is raised. With a string as
  its argument \<open>sys.exit\<close> has the interpreter write the string to the standard
  error stream and end with status 1; an integer is the status itself.
\<close>

datatype exit_arg = Message string | Status int

datatype outcome = Returned | SystemExit exit_arg | RecursionError


text \<open>The non-ASCII characters of the output, in UTF-8.\<close>

definition heavy_ballot_x :: string where
  "heavy_ballot_x = [CHR 0xE2, CHR 0x9C, CHR 0x98]"

definition warning_sign :: string where
  "warning_sign = [CHR 0xE2, CHR 0x9A, CHR 0xA0]"

definition bullet :: string where
  "bullet = [CHR 0xE2, CHR 0x80, CHR 0xA2]"

definition box_horizontal :: string where
  "box_horizontal = [CHR 0xE2, CHR 0x94, CHR 0x80]"

definition box_vertical :: string where
  "box_vertical = [CHR 0xE2, CHR 0x94, CHR 0x82]"

definition box_up_right :: string where
  "box_up_right = [CHR 0xE2, CHR 0x94, CHR 0x94]"

definition box_vertical_right :: string where
  "box_vertical_right = [CHR 0xE2, CHR 0x94, CHR 0x9C]"

text \<open>
  The nested function \<open>walk\<close>, and the loop \<open>for i, k in enumerate(kids)\<close> that
  calls it (the loop over the roots in the last two lines is the same loop with the
  prefix \<open>""\<close>). The first argument is the number of nested calls of \<open>walk\<close> that the
  interpreter still allows. The result is the lines printed, in order, and whether the
  call returned: \<open>False\<close> is \<open>RecursionError\<close>, raised by the call that finds no
  depth left, which ends every enclosing loop and call.
\<close>

fun walk :: "nat \<Rightarrow> CallGraph \<Rightarrow> string list \<Rightarrow> string \<Rightarrow> string \<Rightarrow> bool \<Rightarrow> string list \<times> bool"
  and walk_each :: "nat \<Rightarrow> CallGraph \<Rightarrow> string list \<Rightarrow> string list \<Rightarrow> string \<Rightarrow> string list \<times> bool"
where
  "walk 0 cgraph anc node prefix is_last = ([], False)"
| "walk (Suc depth) cgraph anc node prefix is_last =
     (let branch = (if is_last then box_up_right @ box_horizontal @ box_horizontal @ '' ''
                    else box_vertical_right @ box_horizontal @ box_horizontal @ '' '');
          line = prefix @ branch @ label cgraph node;
          kids = sort (filter (\<lambda>c. c \<in> set anc) (successors (graph cgraph) node));
          r = walk_each depth cgraph anc kids
                (prefix @ (if is_last then ''    '' else box_vertical @ ''   ''))
      in (line # fst r, snd r))"
| "walk_each depth cgraph anc [] prefix = ([], True)"
| "walk_each depth cgraph anc (k # ks) prefix =
     (let r = walk depth cgraph anc k prefix (ks = [])
      in if snd r then
           (let r' = walk_each depth cgraph anc ks prefix in (fst r @ fst r', snd r'))
         else r)"

text \<open>Line 131: the nodes that the target names.\<close>

definition target_matches :: "digraph \<Rightarrow> string \<Rightarrow> string list" where
  "target_matches g target = filter (\<lambda>n. endswith n (''.'' @ target) \<or> n = target) (nodes g)"

text \<open>
  \<open>print_caller_tree\<close>, with the depth that the interpreter allows to \<open>walk\<close>. The
  result is the lines printed on the standard output and how the call ends.
\<close>

definition print_caller_tree :: "nat \<Rightarrow> CallGraph \<Rightarrow> string \<Rightarrow> string list \<times> outcome" where
  "print_caller_tree depth cgraph target =
     (let g = graph cgraph;
          matches = target_matches g target
      in if matches = [] then
           ([], SystemExit (Message
              (heavy_ballot_x @ '' function '' @ [CHR 0x27] @ target @ [CHR 0x27] @ '' not found'')))
         else if length matches > 1 then
           ([warning_sign @ '' Ambiguous function name. Matches:'']
              @ map (\<lambda>m. ''  '' @ bullet @ '' '' @ m) matches
              @ [''Please specify full path like <module>.<func> or <module>.<Class>.<method>.''],
            SystemExit (Status 1))
         else
           (let tgt = hd matches;
                anc = filter (\<lambda>n. has_path g n tgt) (nodes g);
                roots = sort (filter (\<lambda>n. \<not> list_ex (\<lambda>p. p \<in> set anc) (predecessors g n)) anc);
                r = walk_each depth cgraph anc roots []
            in (fst r, if snd r then Returned else RecursionError)))"

section \<open>Notions used in the statements\<close>


text \<open>
  What the first pass keeps true of its four objects: they have the same keys, and
  the graph has no edge yet.
\<close>

definition consistent :: "build_state \<Rightarrow> bool" where
  "consistent st =
     (set (nodes (bgraph st)) = fst ` set (defs st)
      \<and> dom (src_map st) = fst ` set (defs st)
      \<and> dom (line_map st) = fst ` set (defs st)
      \<and> edges (bgraph st) = [])"

text \<open>A graph whose nodes are \<open>K\<close> and whose edges join nodes of \<open>K\<close>.\<close>

definition closed_on :: "string set \<Rightarrow> digraph \<Rightarrow> bool" where
  "closed_on K g = (set (nodes g) = K \<and> set (edges g) \<subseteq> K \<times> K)"


section \<open>Example inputs\<close>

text \<open>An exclusion pattern that matches no path, as \<open>re.compile("$^")\<close> in the tests.\<close>

definition exclude_nothing :: "string \<Rightarrow> bool" where
  "exclude_nothing r = False"

text \<open>\<open>re.compile("nomatch").search\<close>: the text occurs somewhere in the string.\<close>

definition search_nomatch :: "string \<Rightarrow> bool" where
  "search_nomatch n = (\<exists>i < length n. take 7 (drop i n) = ''nomatch'')"

text \<open>The file of \<open>test_build_simple_call\<close>: \<open>a\<close> calls \<open>b\<close>.\<close>

definition mod_py :: source_file where
  "mod_py =
     \<lparr>path = ''mod.py'', rel = ''mod.py'', module = ''mod'',
      tree = Some (Node [
        FunctionDef ''a'' 2 [Node [], Node [Call (Name ''b'') []]],
        FunctionDef ''b'' 6 [Node [], Node []]])\<rparr>"


text \<open>
  A file \<open>m.py\<close> with three functions: \<open>r\<close> calls \<open>a\<close>, \<open>a\<close> calls \<open>b\<close>, and \<open>b\<close>
  calls \<open>a\<close>.
\<close>

definition cyc_py :: source_file where
  "cyc_py =
     \<lparr>path = ''m.py'', rel = ''m.py'', module = ''m'',
      tree = Some (Node [
        FunctionDef ''r'' 1 [Node [], Node [Call (Name ''a'') []]],
        FunctionDef ''a'' 3 [Node [], Node [Call (Name ''b'') []]],
        FunctionDef ''b'' 5 [Node [], Node [Call (Name ''a'') []]]])\<rparr>"

definition cyc_anc :: "string list" where
  "cyc_anc = [''m.r'', ''m.a'', ''m.b'']"

text \<open>A file \<open>p.py\<close> with only the two functions that call each other.\<close>

definition pair_py :: source_file where
  "pair_py =
     \<lparr>path = ''p.py'', rel = ''p.py'', module = ''p'',
      tree = Some (Node [
        FunctionDef ''a'' 1 [Node [], Node [Call (Name ''b'') []]],
        FunctionDef ''b'' 3 [Node [], Node [Call (Name ''a'') []]]])\<rparr>"

definition sample_graph :: CallGraph where
  "sample_graph =
     \<lparr>graph = \<lparr>nodes = [''m.a'', ''m.b'', ''x.c''],
                edges = [(''m.a'', ''m.b''), (''m.b'', ''x.c'')]\<rparr>,
      src = [''m.a'' \<mapsto> ''m.py'', ''m.b'' \<mapsto> ''m.py'', ''x.c'' \<mapsto> ''x.py''],
      lines = [''m.a'' \<mapsto> 1, ''m.b'' \<mapsto> 5, ''x.c'' \<mapsto> 2]\<rparr>"


definition three_defs :: "string list" where
  "three_defs = [''pkg.a.f'', ''pkg.b.f'', ''other.f'']"



section \<open>Properties of the string functions\<close>









lemma startswith_iff: "startswith s p \<longleftrightarrow> (\<exists>q. s = p @ q)"
proof
  assume "startswith s p"
  then have "s = p @ drop (length p) s"
    unfolding startswith_def by (metis append_take_drop_id)
  then show "\<exists>q. s = p @ q" ..
next
  assume "\<exists>q. s = p @ q"
  then show "startswith s p"
    unfolding startswith_def by auto
qed



section \<open>Labels\<close>



section \<open>Properties of the graph operations\<close>

lemma nodes_add_node: "set (nodes (add_node q g)) = insert q (set (nodes g))"
  by (auto simp: add_node_def)

lemma edges_add_node: "edges (add_node q g) = edges g"
  by (simp add: add_node_def)

lemma nodes_add_edge: "set (nodes (add_edge u v g)) = insert u (insert v (set (nodes g)))"
  by (auto simp: add_edge_def Let_def nodes_add_node)

lemma edges_add_edge: "set (edges (add_edge u v g)) = insert (u, v) (set (edges g))"
  by (auto simp: add_edge_def Let_def edges_add_node)

lemma edges_fold_add_edge:
  "set (edges (fold (add_edge u) vs g)) = set (edges g) \<union> {u} \<times> set vs"
  by (induction vs arbitrary: g) (auto simp: edges_add_edge)

lemma nodes_fold_add_edge:
  "vs \<noteq> [] \<Longrightarrow> set (nodes (fold (add_edge u) vs g)) = set (nodes g) \<union> insert u (set vs)"
proof (induction vs arbitrary: g)
  case Nil
  then show ?case by simp
next
  case (Cons v vs)
  then show ?case
    by (cases "vs = []") (auto simp: nodes_add_edge)
qed


section \<open>Filtering\<close>

text \<open>
  C6: for every call graph \<open>g\<close> and pattern \<open>p\<close>, the nodes of \<open>filtered g p\<close> are
  exactly the nodes of \<open>g\<close> that match \<open>p\<close>, its edges are exactly the edges of \<open>g\<close>
  with both endpoints among the surviving nodes, and its two metadata maps are those of
  \<open>g\<close> restricted to the surviving nodes. When \<open>p\<close> matches no node of \<open>g\<close> the result
  has no node and no edge. The receiver is an argument that \<open>filtered\<close> only reads:
  the result is a new value and \<open>g\<close> is what it was.
\<close>

theorem filtered_spec:
  "set (nodes (graph (filtered g p))) = {n \<in> set (nodes (graph g)). p n}
   \<and> set (edges (graph (filtered g p))) =
       {e \<in> set (edges (graph g)).
          fst e \<in> set (nodes (graph (filtered g p))) \<and> snd e \<in> set (nodes (graph (filtered g p)))}
   \<and> src (filtered g p) = src g |` {n \<in> set (nodes (graph g)). p n}
   \<and> lines (filtered g p) = lines g |` {n \<in> set (nodes (graph g)). p n}
   \<and> ((\<forall>n \<in> set (nodes (graph g)). \<not> p n) \<longrightarrow>
        nodes (graph (filtered g p)) = [] \<and> edges (graph (filtered g p)) = [])"
proof -
  let ?ns = "filter p (nodes (graph g))"
  have n: "nodes (graph (filtered g p)) = filter (\<lambda>n. n \<in> set ?ns) (nodes (graph g))"
    and e: "edges (graph (filtered g p)) =
              filter (\<lambda>e. fst e \<in> set ?ns \<and> snd e \<in> set ?ns) (edges (graph g))"
    and s: "src (filtered g p) = (\<lambda>k. if k \<in> set ?ns then src g k else None)"
    and l: "lines (filtered g p) = (\<lambda>k. if k \<in> set ?ns then lines g k else None)"
    by (simp_all add: filtered_def subgraph_def Let_def)
  have ns: "set (nodes (graph (filtered g p))) = {n \<in> set (nodes (graph g)). p n}"
    unfolding n by auto
  have es: "set (edges (graph (filtered g p))) =
       {e \<in> set (edges (graph g)).
          fst e \<in> set (nodes (graph (filtered g p))) \<and> snd e \<in> set (nodes (graph (filtered g p)))}"
    unfolding ns unfolding e by auto
  have sr: "src (filtered g p) = src g |` {n \<in> set (nodes (graph g)). p n}"
    unfolding s restrict_map_def by auto
  have li: "lines (filtered g p) = lines g |` {n \<in> set (nodes (graph g)). p n}"
    unfolding l restrict_map_def by auto
  have em: "(\<forall>n \<in> set (nodes (graph g)). \<not> p n) \<longrightarrow>
        nodes (graph (filtered g p)) = [] \<and> edges (graph (filtered g p)) = []"
  proof
    assume "\<forall>n \<in> set (nodes (graph g)). \<not> p n"
    then have "?ns = []"
      by (simp add: filter_empty_conv)
    then show "nodes (graph (filtered g p)) = [] \<and> edges (graph (filtered g p)) = []"
      unfolding n e by simp
  qed
  from ns es sr li em show ?thesis by blast
qed

theorem filtered_spec_witness:
  "nodes (graph (filtered sample_graph search_nomatch)) = []
   \<and> edges (graph (filtered sample_graph search_nomatch)) = []
   \<and> set (nodes (graph (filtered sample_graph (\<lambda>n. startswith n ''m.'')))) = {''m.a'', ''m.b''}
   \<and> set (edges (graph (filtered sample_graph (\<lambda>n. startswith n ''m.'')))) = {(''m.a'', ''m.b'')}"
proof -
  have h: "\<forall>n \<in> set (nodes (graph sample_graph)). \<not> search_nomatch n"
    by (auto simp: sample_graph_def search_nomatch_def less_Suc_eq numeral_3_eq_3)
  have m: "{n \<in> set (nodes (graph sample_graph)). startswith n ''m.''} = {''m.a'', ''m.b''}"
    by (auto simp: sample_graph_def startswith_def)
  have "{e \<in> set (edges (graph sample_graph)). fst e \<in> {''m.a'', ''m.b''} \<and> snd e \<in> {''m.a'', ''m.b''}}
          = {(''m.a'', ''m.b'')}"
    by (auto simp: sample_graph_def)
  with m h show ?thesis
    using filtered_spec [of sample_graph search_nomatch]
      filtered_spec [of sample_graph "\<lambda>n. startswith n ''m.''"]
    by simp
qed


section \<open>Files that do not parse\<close>




section \<open>Resolving a call\<close>

text \<open>
  C3: for a call whose candidate list is not empty, the edges added go from the caller
  to exactly the candidates that start with the caller's prefix when there is such a
  candidate, and to every candidate otherwise; every surviving candidate gets its
  edge, none is picked over another.
\<close>

theorem tie_break_edges:
  assumes "cands = callee_candidates ks pre func"
    and "cands \<noteq> []"
    and "same_pkg = filter (\<lambda>c. startswith c pre) cands"
  shows "set (edges (resolve_node ks caller pre (Call func args) g)) =
           set (edges g) \<union> {caller} \<times> (if same_pkg \<noteq> [] then set same_pkg else set cands)"
  using assms by (simp add: resolve_node_def link_def Let_def edges_fold_add_edge)

theorem tie_break_edges_witness:
  "set (edges (resolve_node three_defs ''pkg.a.g'' (caller_prefix ''pkg.a.g'') (Call (Name ''f'') []) DiGraph)) =
     {(''pkg.a.g'', ''pkg.a.f'')}
   \<and> set (edges (resolve_node three_defs ''m.g'' (caller_prefix ''m.g'') (Call (Name ''f'') []) DiGraph)) =
     {(''m.g'', ''pkg.a.f''), (''m.g'', ''pkg.b.f''), (''m.g'', ''other.f'')}"
proof -
  have p1: "caller_prefix ''pkg.a.g'' = ''pkg.a''" and p2: "caller_prefix ''m.g'' = ''m''"
    by (simp_all add: caller_prefix_def)
  have c1: "[''pkg.a.f'', ''pkg.b.f'', ''other.f''] = callee_candidates three_defs ''pkg.a'' (Name ''f'')"
    and c2: "[''pkg.a.f'', ''pkg.b.f'', ''other.f''] = callee_candidates three_defs ''m'' (Name ''f'')"
    by (simp_all add: callee_candidates_def three_defs_def endswith_def)
  have s1: "[''pkg.a.f''] = filter (\<lambda>c. startswith c ''pkg.a'') [''pkg.a.f'', ''pkg.b.f'', ''other.f'']"
    and s2: "[] = filter (\<lambda>c. startswith c ''m'') [''pkg.a.f'', ''pkg.b.f'', ''other.f'']"
    by (simp_all add: startswith_def)
  show ?thesis
    using tie_break_edges [OF c1 _ s1, of "''pkg.a.g''" "[]" DiGraph]
      tie_break_edges [OF c2 _ s2, of "''m.g''" "[]" DiGraph]
    by (auto simp: p1 p2 DiGraph_def)
qed




section \<open>The collector\<close>

lemma register_consistent: "consistent st \<Longrightarrow> consistent (register f cls name l node st)"
  by (auto simp: consistent_def register_def Let_def nodes_add_node edges_add_node dom_update)


lemma visit_consistent:
  "consistent st \<Longrightarrow> consistent (visit f cls n st)"
  "consistent st \<Longrightarrow> consistent (generic_visit f cls ns st)"
  by (induction f cls n st and f cls ns st rule: visit_generic_visit.induct)
     (simp_all add: register_consistent)


lemma collect_file_consistent: "consistent st \<Longrightarrow> consistent (collect_file rx f st)"
  by (simp add: collect_file_def visit_consistent split: option.splits)

lemma fold_collect_consistent: "consistent st \<Longrightarrow> consistent (fold (collect_file rx) fs st)"
  by (induction fs arbitrary: st) (simp_all add: collect_file_consistent)

lemma empty_state_consistent: "consistent empty_state"
  by (simp add: consistent_def empty_state_def DiGraph_def)

lemma collect_consistent: "consistent (collect fs rx)"
  unfolding collect_def
  by (rule fold_collect_consistent) (rule empty_state_consistent)







section \<open>The graph that is built\<close>

lemma callee_candidates_subset: "set (callee_candidates ks pre func) \<subseteq> set ks"
  by (auto simp: callee_candidates_def Let_def split: ast.splits if_splits)

lemma link_closed:
  assumes "closed_on K g" and "caller \<in> K" and "set cands \<subseteq> K"
  shows "closed_on K (link caller pre cands g)"
proof (cases "cands = []")
  case True
  then show ?thesis using assms by (simp add: link_def)
next
  case False
  let ?vs = "if filter (\<lambda>c. startswith c pre) cands \<noteq> [] then filter (\<lambda>c. startswith c pre) cands else cands"
  have vs: "?vs \<noteq> []" "set ?vs \<subseteq> K"
    using False assms(3) by auto
  have "link caller pre cands g = fold (add_edge caller) ?vs g"
    using False by (simp add: link_def Let_def)
  then show ?thesis
    using assms(1,2) vs
    by (auto simp: closed_on_def nodes_fold_add_edge edges_fold_add_edge simp del: set_filter)
qed

lemma resolve_node_closed:
  "closed_on K g \<Longrightarrow> caller \<in> K \<Longrightarrow> set ks \<subseteq> K \<Longrightarrow> closed_on K (resolve_node ks caller pre n g)"
  using callee_candidates_subset [of ks pre]
  by (cases n) (auto simp: resolve_node_def intro!: link_closed)

lemma fold_resolve_node_closed:
  "closed_on K g \<Longrightarrow> caller \<in> K \<Longrightarrow> set ks \<subseteq> K \<Longrightarrow>
     closed_on K (fold (resolve_node ks caller pre) ns g)"
  by (induction ns arbitrary: g) (simp_all add: resolve_node_closed)

lemma resolve_def_closed:
  "closed_on K g \<Longrightarrow> fst d \<in> K \<Longrightarrow> set ks \<subseteq> K \<Longrightarrow> closed_on K (resolve_def ks d g)"
  unfolding resolve_def_def Let_def by (rule fold_resolve_node_closed)

lemma fold_resolve_def_closed:
  "closed_on K g \<Longrightarrow> fst ` set ds \<subseteq> K \<Longrightarrow> set ks \<subseteq> K \<Longrightarrow>
     closed_on K (fold (resolve_def ks) ds g)"
  by (induction ds arbitrary: g) (simp_all add: resolve_def_closed)

lemma build_closed:
  "closed_on (fst ` set (defs (collect fs rx))) (graph (build_call_graph fs rx))"
proof -
  let ?st = "collect fs rx"
  have "closed_on (fst ` set (defs ?st)) (bgraph ?st)"
    using collect_consistent [of fs rx] by (simp add: consistent_def closed_on_def)
  then have "closed_on (fst ` set (defs ?st)) (fold (resolve_def (map fst (defs ?st))) (defs ?st) (bgraph ?st))"
    by (rule fold_resolve_def_closed) simp_all
  then show ?thesis
    by (simp add: build_call_graph_def Let_def)
qed

text \<open>
  C7: for every list of files under the root and every exclusion pattern, the nodes
  of the graph that \<open>build_call_graph\<close> returns are exactly the keys of the
  definitions collected, and both endpoints of every edge are nodes. A call with no
  candidate leaves the graph as it is: no edge, no node.
\<close>

theorem no_dangling_edges:
  "set (nodes (graph (build_call_graph fs rx))) = fst ` set (defs (collect fs rx))
   \<and> set (edges (graph (build_call_graph fs rx))) \<subseteq>
       set (nodes (graph (build_call_graph fs rx))) \<times> set (nodes (graph (build_call_graph fs rx)))
   \<and> (callee_candidates ks pre func = [] \<longrightarrow>
        resolve_node ks caller pre (Call func args) g = g)"
  using build_closed [of fs rx]
  by (simp add: closed_on_def resolve_node_def link_def)

theorem no_dangling_edges_witness:
  "set (nodes (graph (build_call_graph [mod_py] exclude_nothing))) =
     fst ` set (defs (collect [mod_py] exclude_nothing))
   \<and> set (edges (graph (build_call_graph [mod_py] exclude_nothing))) \<subseteq>
       set (nodes (graph (build_call_graph [mod_py] exclude_nothing)))
         \<times> set (nodes (graph (build_call_graph [mod_py] exclude_nothing)))
   \<and> resolve_node three_defs ''m.g'' ''m'' (Call (Name ''print'') []) DiGraph = DiGraph"
proof -
  have "callee_candidates three_defs ''m'' (Name ''print'') = []"
    by (simp add: callee_candidates_def three_defs_def endswith_def)
  then show ?thesis
    using no_dangling_edges [of "[mod_py]" exclude_nothing three_defs "''m''" "Name ''print''"
        "''m.g''" "[]" DiGraph]
    by blast
qed

lemma build_metadata:
  "dom (src (build_call_graph fs rx)) = set (nodes (graph (build_call_graph fs rx)))"
  "dom (lines (build_call_graph fs rx)) = set (nodes (graph (build_call_graph fs rx)))"
proof -
  have n: "set (nodes (graph (build_call_graph fs rx))) = fst ` set (defs (collect fs rx))"
    using build_closed [of fs rx] by (simp add: closed_on_def)
  show "dom (src (build_call_graph fs rx)) = set (nodes (graph (build_call_graph fs rx)))"
    unfolding n using collect_consistent [of fs rx]
    by (simp add: consistent_def build_call_graph_def Let_def)
  show "dom (lines (build_call_graph fs rx)) = set (nodes (graph (build_call_graph fs rx)))"
    unfolding n using collect_consistent [of fs rx]
    by (simp add: consistent_def build_call_graph_def Let_def)
qed

lemma filtered_metadata:
  assumes "dom (src g) = set (nodes (graph g))" and "dom (lines g) = set (nodes (graph g))"
  shows "dom (src (filtered g p)) = set (nodes (graph (filtered g p)))"
    and "dom (lines (filtered g p)) = set (nodes (graph (filtered g p)))"
  using assms by (auto simp: filtered_def subgraph_def Let_def dom_def)

lemma label_known:
  "src g n = Some pth \<Longrightarrow> lines g n = Some l \<Longrightarrow>
     label g n = last (split CHR ''.'' n) @ '' @ '' @ pth @ '':'' @ str_int l"
  by (simp add: label_def)

text \<open>
  C10: in a call graph that \<open>build_call_graph\<close> returns, and in any \<open>filtered\<close>
  graph of it, the keys of \<open>src\<close> and the keys of \<open>lines\<close> are exactly the nodes.
  So for a node of such a graph \<open>label\<close> finds a file and a line recorded and prints
  them: the fallbacks \<open>"?"\<close> and 1 are not taken.
\<close>

theorem metadata_keys:
  assumes "cg = build_call_graph fs rx \<or> cg = filtered (build_call_graph fs rx) p"
  shows "dom (src cg) = set (nodes (graph cg))
     \<and> dom (lines cg) = set (nodes (graph cg))
     \<and> (\<forall>n \<in> set (nodes (graph cg)). \<exists>pth l.
           src cg n = Some pth \<and> lines cg n = Some l
           \<and> label cg n = last (split CHR ''.'' n) @ '' @ '' @ pth @ '':'' @ str_int l)"
proof -
  have d: "dom (src cg) = set (nodes (graph cg))" "dom (lines cg) = set (nodes (graph cg))"
    using assms build_metadata [of fs rx]
      filtered_metadata [OF build_metadata, of fs rx p]
    by auto
  have "\<exists>pth l. src cg n = Some pth \<and> lines cg n = Some l
           \<and> label cg n = last (split CHR ''.'' n) @ '' @ '' @ pth @ '':'' @ str_int l"
    if "n \<in> set (nodes (graph cg))" for n
  proof -
    from that d obtain pth l where "src cg n = Some pth" "lines cg n = Some l"
      by (metis domD)
    then show ?thesis
      using label_known by blast
  qed
  with d show ?thesis by blast
qed

theorem metadata_keys_witness:
  "dom (src (build_call_graph [mod_py] exclude_nothing)) =
     set (nodes (graph (build_call_graph [mod_py] exclude_nothing)))
   \<and> dom (lines (filtered (build_call_graph [mod_py] exclude_nothing) search_nomatch)) =
     set (nodes (graph (filtered (build_call_graph [mod_py] exclude_nothing) search_nomatch)))
   \<and> (\<exists>pth l. src (build_call_graph [mod_py] exclude_nothing) ''mod.a'' = Some pth
         \<and> lines (build_call_graph [mod_py] exclude_nothing) ''mod.a'' = Some l
         \<and> label (build_call_graph [mod_py] exclude_nothing) ''mod.a'' =
             last (split CHR ''.'' ''mod.a'') @ '' @ '' @ pth @ '':'' @ str_int l)"
proof -
  have "''mod.a'' \<in> set (nodes (graph (build_call_graph [mod_py] exclude_nothing)))"
    by code_simp
  then show ?thesis
    using metadata_keys [OF disjI1 [OF refl], of "[mod_py]" exclude_nothing]
      metadata_keys [OF disjI2 [OF refl], of "[mod_py]" exclude_nothing search_nomatch]
    by blast
qed


section \<open>Resolving the target\<close>




section \<open>Cycles among the ancestors\<close>

lemma cyc_graph:
  "graph (build_call_graph [cyc_py] exclude_nothing) =
     \<lparr>nodes = [''m.r'', ''m.a'', ''m.b''],
      edges = [(''m.r'', ''m.a''), (''m.a'', ''m.b''), (''m.b'', ''m.a'')]\<rparr>"
  by code_simp

lemma cyc_matches: "target_matches (graph (build_call_graph [cyc_py] exclude_nothing)) ''b'' = [''m.b'']"
  unfolding cyc_graph by code_simp

lemma cyc_ancestors:
  "filter (\<lambda>n. has_path (graph (build_call_graph [cyc_py] exclude_nothing)) n ''m.b'')
     (nodes (graph (build_call_graph [cyc_py] exclude_nothing))) = cyc_anc"
  unfolding cyc_graph cyc_anc_def by code_simp

lemma cyc_roots:
  "sort (filter (\<lambda>n. \<not> list_ex (\<lambda>p. p \<in> set cyc_anc)
       (predecessors (graph (build_call_graph [cyc_py] exclude_nothing)) n)) cyc_anc) = [''m.r'']"
  unfolding cyc_graph cyc_anc_def by code_simp

lemma cyc_kids:
  "sort (filter (\<lambda>c. c \<in> set cyc_anc)
     (successors (graph (build_call_graph [cyc_py] exclude_nothing)) ''m.r'')) = [''m.a'']"
  "sort (filter (\<lambda>c. c \<in> set cyc_anc)
     (successors (graph (build_call_graph [cyc_py] exclude_nothing)) ''m.a'')) = [''m.b'']"
  "sort (filter (\<lambda>c. c \<in> set cyc_anc)
     (successors (graph (build_call_graph [cyc_py] exclude_nothing)) ''m.b'')) = [''m.a'']"
  unfolding cyc_graph cyc_anc_def by code_simp+

text \<open>Whatever depth is left, neither function of the cycle is walked to the end.\<close>

lemma cyc_walk_loop:
  "\<not> snd (walk depth (build_call_graph [cyc_py] exclude_nothing) cyc_anc ''m.a'' pre is_last)
   \<and> \<not> snd (walk depth (build_call_graph [cyc_py] exclude_nothing) cyc_anc ''m.b'' pre is_last)"
proof (induction depth arbitrary: pre is_last)
  case 0
  show ?case by simp
next
  case (Suc depth)
  show ?case
    using Suc.IH by (simp add: cyc_kids Let_def del: sort_key_simps)
qed

lemma cyc_walk_root:
  "\<not> snd (walk depth (build_call_graph [cyc_py] exclude_nothing) cyc_anc ''m.r'' pre is_last)"
proof (cases depth)
  case 0
  then show ?thesis by simp
next
  case (Suc d)
  then show ?thesis
    using cyc_walk_loop [of d] by (simp add: cyc_kids Let_def)
qed

text \<open>
  C1 fails on the code. For \<open>cyc_py\<close> and the target \<open>b\<close> the ancestors are \<open>m.r\<close>,
  \<open>m.a\<close> and \<open>m.b\<close>, the only root is \<open>m.r\<close>, and \<open>walk\<close> goes from \<open>m.r\<close> to
  \<open>m.a\<close>, to \<open>m.b\<close>, to \<open>m.a\<close> again and so on: it keeps no record of the nodes on
  its way. Whatever depth the interpreter allows, the call ends in \<open>RecursionError\<close>
  and not by returning.
\<close>

theorem cycle_below_root_overflows:
  "snd (print_caller_tree depth (build_call_graph [cyc_py] exclude_nothing) ''b'') = RecursionError"
proof -
  have "\<not> snd (walk_each depth (build_call_graph [cyc_py] exclude_nothing) cyc_anc [''m.r''] [])"
    using cyc_walk_root [of depth "[]" True] by simp
  then show ?thesis
    unfolding print_caller_tree_def Let_def cyc_matches list.sel cyc_ancestors cyc_roots
    by simp
qed

text \<open>
  The two functions that call each other, on their own: both are ancestors and each
  has the other as a predecessor, so there is no root and nothing is printed.
\<close>

lemma mutual_pair_prints_nothing:
  "print_caller_tree depth (build_call_graph [pair_py] exclude_nothing) ''b'' = ([], Returned)"
proof -
  have g: "graph (build_call_graph [pair_py] exclude_nothing) =
      \<lparr>nodes = [''p.a'', ''p.b''], edges = [(''p.a'', ''p.b''), (''p.b'', ''p.a'')]\<rparr>"
    by code_simp
  have m: "target_matches \<lparr>nodes = [''p.a'', ''p.b''], edges = [(''p.a'', ''p.b''), (''p.b'', ''p.a'')]\<rparr> ''b''
      = [''p.b'']"
    by code_simp
  have a: "filter (\<lambda>n. has_path \<lparr>nodes = [''p.a'', ''p.b''], edges = [(''p.a'', ''p.b''), (''p.b'', ''p.a'')]\<rparr> n ''p.b'')
      [''p.a'', ''p.b''] = [''p.a'', ''p.b'']"
    by code_simp
  have r: "sort (filter (\<lambda>n. \<not> list_ex (\<lambda>p. p \<in> set [''p.a'', ''p.b''])
       (predecessors \<lparr>nodes = [''p.a'', ''p.b''], edges = [(''p.a'', ''p.b''), (''p.b'', ''p.a'')]\<rparr> n))
         [''p.a'', ''p.b'']) = []"
    by code_simp
  show ?thesis
    unfolding print_caller_tree_def Let_def g m list.sel digraph.simps a r
    by simp
qed

end
